theory Spec2Isabelle
  imports Main "HOL-Library.Monad_Syntax"
begin

section \<open>The abstract matcher of RE/flex (absmatcher.h)\<close>

text \<open>
  The development embeds \<^verbatim>\<open>reflex::AbstractMatcher\<close>: its option parser, its sliding
  buffer (\<^verbatim>\<open>grow\<close>, \<^verbatim>\<open>update\<close>, \<^verbatim>\<open>get\<close>, \<^verbatim>\<open>peek\<close>), the lexer primitives
  \<^verbatim>\<open>input\<close> and \<^verbatim>\<open>unput\<close>, the position accessors, \<^verbatim>\<open>matches\<close> and the iterator.

  Conventions of the embedding.
  \<^item> A \<^verbatim>\<open>size_t\<close> is a natural number. Buffer sizes, offsets and character counts stay far
    below \<open>2 ^ 64\<close> (an allocation of that size fails first), so additions are exact; a
    subtraction can fall below zero at small values and is written with \<open>sz_sub\<close>, which wraps
    as the machine does.
  \<^item> The region \<^verbatim>\<open>buf_\<close> points to is a function from offsets to bytes together with the
    capacity \<^verbatim>\<open>max_\<close>; an access at an offset that is not below the capacity has no defined
    behaviour in C++ and is the result \<open>None\<close>. The pointer \<^verbatim>\<open>txt_\<close> always points into
    that region and is kept as its offset \<^verbatim>\<open>txt_ - buf_\<close>.
  \<^item> A data member \<^verbatim>\<open>x_\<close> of the class is the record field \<open>x_'\<close>.
  \<^item> A member function that changes the matcher takes the matcher and returns the new one;
    one that can leave defined behaviour, or not return, returns an \<open>option\<close>.
\<close>

subsection \<open>Constants (AbstractMatcher::Const)\<close>

type_synonym Method = int

definition SCAN :: Method where "SCAN = 0"
definition FIND :: Method where "FIND = 1"
definition SPLIT :: Method where "SPLIT = 2"
definition MATCH :: Method where "MATCH = 3"

definition NUL :: char where "NUL = CHR 0x00"
definition UNK :: int where "UNK = 256"
definition BOB :: int where "BOB = 257"
definition EOF :: int where "EOF = - 1"
definition EOB :: int where "EOB = EOF"
definition EMPTY :: nat where "EMPTY = 65535"
definition BLOCK :: nat where "BLOCK = 4096"

text \<open>The newline byte, written \<^verbatim>\<open>'\n'\<close> in the source.\<close>

definition NL :: char where "NL = CHR 0x0A"

text \<open>\<^verbatim>\<open>static_cast<unsigned char>(c)\<close> read as an \<^verbatim>\<open>int\<close>, and the store of an \<^verbatim>\<open>int\<close> into a
  \<^verbatim>\<open>char\<close>, which keeps the low eight bits.\<close>

definition uchar :: "char \<Rightarrow> int" where "uchar c = of_char c"
definition to_char :: "int \<Rightarrow> char" where "to_char i = char_of i"

text \<open>Subtraction of two \<^verbatim>\<open>size_t\<close> values, wrapping below zero.\<close>

definition sz_sub :: "nat \<Rightarrow> nat \<Rightarrow> nat" where
  "sz_sub a b = (if b \<le> a then a - b else a + 2 ^ 64 - b)"

subsection \<open>Options and their parser\<close>

record Option =
  A :: bool
  N :: bool
  T :: nat

text \<open>\<^verbatim>\<open>isdigit\<close> and the value \<^verbatim>\<open>*s - '0'\<close> of a digit.\<close>

definition isdigit :: "char \<Rightarrow> bool" where
  "isdigit c = (48 \<le> (of_char c :: nat) \<and> (of_char c :: nat) \<le> 57)"

definition digit_val :: "char \<Rightarrow> nat" where
  "digit_val c = of_char c - 48"

text \<open>
  The loop \<^verbatim>\<open>for (const char *s = opt; *s != '\0'; ++s) switch (*s) ...\<close> of \<^verbatim>\<open>reset\<close>.
  The argument is what \<^verbatim>\<open>s\<close> points to: the characters up to the terminating NUL, which
  is the end of the list (a NUL inside the list terminates as well). Case \<^verbatim>\<open>'T'\<close> advances
  \<^verbatim>\<open>s\<close> by one, or by two over an \<^verbatim>\<open>'='\<close>, assigns the digit found there or else 0, and the
  loop then steps over that character too. When the advance has reached the terminator, the
  loop's \<^verbatim>\<open>++s\<close> leaves the string and the next test reads past its end: \<open>None\<close>.
\<close>

fun parse_opt :: "string \<Rightarrow> Option \<Rightarrow> Option option" where
  "parse_opt [] opt = Some opt"
| "parse_opt (c # cs) opt =
     (if c = NUL then Some opt
      else if c = CHR ''A'' then parse_opt cs (opt\<lparr>A := True\<rparr>)
      else if c = CHR ''N'' then parse_opt cs (opt\<lparr>N := True\<rparr>)
      else if c = CHR ''T'' then
        (case cs of
           [] \<Rightarrow> None
         | x # r \<Rightarrow>
             if x = CHR ''='' then
               (case r of
                  [] \<Rightarrow> None
                | d # r' \<Rightarrow>
                    if d = NUL then None
                    else parse_opt r' (opt\<lparr>T := (if isdigit d then digit_val d else 0)\<rparr>))
             else if x = NUL then None
             else parse_opt r (opt\<lparr>T := (if isdigit x then digit_val x else 0)\<rparr>))
      else parse_opt cs opt)"

subsection \<open>The input source\<close>

text \<open>
  Modelled from the spec: the class \<^verbatim>\<open>Input\<close> of \<^verbatim>\<open>input.h\<close>, which is not part of these
  sources. The spec gives its contract: \<^verbatim>\<open>get(dst, n)\<close> delivers \<open>k\<close> bytes with
  \<open>0 \<le> k \<le> n\<close>, and \<open>k = 0\<close> signals the end of the input. The source is the list
  of bytes it has not delivered yet, and a read delivers as many of them as asked for.
\<close>

type_synonym Input = string

definition Input_get :: "nat \<Rightarrow> Input \<Rightarrow> string \<times> Input" where
  "Input_get n inp = (take n inp, drop n inp)"

subsection \<open>The matcher\<close>

record AbstractMatcher =
  opt_' :: Option
  buf_' :: "nat \<Rightarrow> char"
  txt_' :: nat
  len_' :: nat
  cap_' :: nat
  cur_' :: nat
  pos_' :: nat
  end_' :: nat
  max_' :: nat
  ind_' :: nat
  blk_' :: nat
  got_' :: int
  chr_' :: int
  lno_' :: nat
  cno_' :: nat
  num_' :: nat
  eof_' :: bool
  mat_' :: bool
  in_' :: Input

text \<open>Reading and writing one byte of the region, inside its capacity.\<close>

definition rd :: "AbstractMatcher \<Rightarrow> nat \<Rightarrow> char option" where
  "rd m i = (if i < max_' m then Some (buf_' m i) else None)"

definition wr :: "nat \<Rightarrow> char \<Rightarrow> AbstractMatcher \<Rightarrow> AbstractMatcher option" where
  "wr i c m = (if i < max_' m then Some (m\<lparr>buf_' := (buf_' m)(i := c)\<rparr>) else None)"

text \<open>
  \<^verbatim>\<open>reset(opt)\<close>: \<open>None\<close> for the argument is the null pointer. The options are assigned
  only under \<^verbatim>\<open>if (opt)\<close>; the assignments after it are unconditional.
\<close>

definition reset :: "string option \<Rightarrow> AbstractMatcher \<Rightarrow> AbstractMatcher option" where
  "reset opt m = do {
     m1 \<leftarrow> (case opt of
             None \<Rightarrow> Some m
           | Some s \<Rightarrow> do {
               ov \<leftarrow> parse_opt s \<lparr>A = False, N = False, T = 8\<rparr>;
               Some (m\<lparr>opt_' := ov\<rparr>) });
     m2 \<leftarrow> wr 0 NUL m1;
     Some (m2\<lparr>txt_' := 0, len_' := 0, cap_' := 0, cur_' := 0, pos_' := 0, end_' := 0, ind_' := 0,
              lno_' := 1, cno_' := 0, num_' := 0, got_' := BOB, chr_' := UNK, eof_' := False,
              mat_' := False, blk_' := 0\<rparr>) }"

text \<open>
  \<^verbatim>\<open>init(opt)\<close> allocates \<open>2 * BLOCK\<close> bytes and resets. The bytes of a fresh allocation
  are indeterminate; \<open>junk\<close> is what they happen to hold. The constructor has stored the
  input before. The other members hold indeterminate values until \<^verbatim>\<open>reset\<close> assigns them;
  with a null \<^verbatim>\<open>opt\<close> the options keep theirs, which \<open>o0\<close> stands for.
\<close>

definition init ::
  "(nat \<Rightarrow> char) \<Rightarrow> Option \<Rightarrow> Input \<Rightarrow> string option \<Rightarrow> AbstractMatcher option" where
  "init junk o0 inp opt =
     reset opt \<lparr>opt_' = o0, buf_' = junk, txt_' = 0, len_' = 0, cap_' = 0, cur_' = 0, pos_' = 0,
                end_' = 0, max_' = 2 * BLOCK, ind_' = 0, blk_' = 0, got_' = 0, chr_' = 0, lno_' = 0,
                cno_' = 0, num_' = 0, eof_' = False, mat_' = False, in_' = inp\<rparr>"

subsection \<open>The position tracker and the growth of the buffer\<close>

text \<open>
  \<^verbatim>\<open>update()\<close>: the loop runs \<^verbatim>\<open>s\<close> over the offsets below \<^verbatim>\<open>txt_\<close>; its state is
  \<^verbatim>\<open>lno_\<close>, the offset of \<^verbatim>\<open>t\<close> and \<^verbatim>\<open>cno_\<close>.
\<close>

fun update_loop ::
  "AbstractMatcher \<Rightarrow> nat list \<Rightarrow> nat \<times> nat \<times> nat \<Rightarrow> (nat \<times> nat \<times> nat) option" where
  "update_loop m [] st = Some st"
| "update_loop m (s # ss) (lno, t, cno) = do {
     c \<leftarrow> rd m s;
     update_loop m ss (if c = NL then (lno + 1, s, 0) else (lno, t, cno)) }"

definition update :: "AbstractMatcher \<Rightarrow> AbstractMatcher option" where
  "update m = do {
     (lno, t, cno) \<leftarrow> update_loop m [0..<txt_' m] (lno_' m, 0, cno_' m);
     Some (m\<lparr>lno_' := lno, cno_' := cno + (txt_' m - t), num_' := num_' m + txt_' m\<rparr>) }"

text \<open>
  \<^verbatim>\<open>memmove(buf_ + dst, buf_ + src, n)\<close> inside the region; both ranges must lie in it.
\<close>

definition memmove :: "nat \<Rightarrow> nat \<Rightarrow> nat \<Rightarrow> AbstractMatcher \<Rightarrow> AbstractMatcher option" where
  "memmove dst src n m =
     (if dst + n \<le> max_' m \<and> src + n \<le> max_' m
      then Some (m\<lparr>buf_' := (\<lambda>i. if dst \<le> i \<and> i < dst + n then buf_' m (src + (i - dst))
                                  else buf_' m i)\<rparr>)
      else None)"

text \<open>
  The loop \<^verbatim>\<open>while (max_ < newmax) max_ *= 2\<close>. With \<^verbatim>\<open>max_\<close> equal to 0 it never
  ends, which is the result \<open>None\<close>.
\<close>

function double_max :: "nat \<Rightarrow> nat \<Rightarrow> nat option" where
  "double_max mx newmax =
     (if mx < newmax then (if mx = 0 then None else double_max (mx * 2) newmax) else Some mx)"
  by pat_completeness auto
termination
  by (relation "measure (\<lambda>(mx, newmax). newmax - mx)") auto

declare double_max.simps [simp del]

text \<open>
  \<^verbatim>\<open>grow(need)\<close>. In the second branch \<^verbatim>\<open>update\<close> reads the old region, whose capacity is
  \<^verbatim>\<open>oldmax\<close>, so the new capacity is stored after it; \<^verbatim>\<open>update\<close> does not use \<^verbatim>\<open>max_\<close>.
  \<^verbatim>\<open>memcpy\<close> reads \<^verbatim>\<open>end_\<close> bytes of the old region from \<^verbatim>\<open>txt_\<close> on. The bytes of the
  new region behind the copied ones are indeterminate; they are NUL here. The sum
  \<^verbatim>\<open>end_ - gap + need\<close> and the doubled capacity are exact here; in the source they wrap at
  \<open>2 ^ 64\<close>, so the definition is the source as long as \<^verbatim>\<open>end_ - gap + need\<close> does not
  exceed \<open>2 ^ 63\<close>.
\<close>

definition grow :: "nat \<Rightarrow> AbstractMatcher \<Rightarrow> (bool \<times> AbstractMatcher) option" where
  "grow need m =
     (if sz_sub (max_' m) (end_' m) \<ge> need then Some (False, m)
      else
        let gap = txt_' m in
        if gap \<ge> need then do {
          m1 \<leftarrow> update m;
          let m2 = m1\<lparr>cur_' := sz_sub (cur_' m1) gap, ind_' := sz_sub (ind_' m1) gap,
                      pos_' := sz_sub (pos_' m1) gap, end_' := sz_sub (end_' m1) gap\<rparr>;
          m3 \<leftarrow> memmove 0 gap (end_' m2) m2;
          Some (True, m3\<lparr>txt_' := 0\<rparr>) }
        else do {
          let newmax = sz_sub (end_' m) gap + need;
          let oldmax = max_' m;
          mx \<leftarrow> double_max (max_' m) newmax;
          if oldmax < mx then do {
            m1 \<leftarrow> update m;
            let m2 = m1\<lparr>cur_' := sz_sub (cur_' m1) gap, ind_' := sz_sub (ind_' m1) gap,
                        pos_' := sz_sub (pos_' m1) gap, end_' := sz_sub (end_' m1) gap\<rparr>;
            if gap + end_' m2 \<le> oldmax \<and> end_' m2 \<le> mx
            then Some (True, m2\<lparr>max_' := mx,
                                 buf_' := (\<lambda>i. if i < end_' m2 then buf_' m (gap + i) else NUL),
                                 txt_' := 0\<rparr>)
            else None }
          else Some (True, m) })"

subsection \<open>Reading characters\<close>

text \<open>
  The virtual \<^verbatim>\<open>get(s, n)\<close> with \<^verbatim>\<open>s = buf_ + off\<close>: the bytes the source delivers are
  stored from \<open>off\<close> on, and their number is returned.
\<close>

definition get_into :: "nat \<Rightarrow> nat \<Rightarrow> AbstractMatcher \<Rightarrow> (nat \<times> AbstractMatcher) option" where
  "get_into off n m =
     (let (bs, rest) = Input_get n (in_' m); k = length bs in
      if off + k \<le> max_' m
      then Some (k, m\<lparr>buf_' := (\<lambda>i. if off \<le> i \<and> i < off + k then bs ! (i - off)
                                     else buf_' m i),
                      in_' := rest\<rparr>)
      else None)"

text \<open>
  The refill shared by \<^verbatim>\<open>get()\<close> and \<^verbatim>\<open>peek()\<close>:
  \<^verbatim>\<open>if (end_ == max_) (void)grow(); end_ += get(buf_ + end_, blk_ ? blk_ : max_ - end_)\<close>.
\<close>

definition refill :: "AbstractMatcher \<Rightarrow> AbstractMatcher option" where
  "refill m = do {
     m1 \<leftarrow> (if end_' m = max_' m then map_option snd (grow BLOCK m) else Some m);
     (k, m2) \<leftarrow> get_into (end_' m1)
                  (if blk_' m1 \<noteq> 0 then blk_' m1 else sz_sub (max_' m1) (end_' m1)) m1;
     Some (m2\<lparr>end_' := end_' m2 + k\<rparr>) }"

text \<open>
  \<^verbatim>\<open>get()\<close> and \<^verbatim>\<open>peek()\<close>. \<^verbatim>\<open>wrap()\<close> of this class returns false, so the body of
  \<^verbatim>\<open>while (true)\<close> runs once.
\<close>

definition get :: "AbstractMatcher \<Rightarrow> (int \<times> AbstractMatcher) option" where
  "get m =
     (if pos_' m < end_' m then do {
        c \<leftarrow> rd m (pos_' m);
        Some (uchar c, m\<lparr>pos_' := pos_' m + 1\<rparr>) }
      else if eof_' m then Some (EOF, m)
      else do {
        m1 \<leftarrow> refill m;
        if pos_' m1 < end_' m1 then do {
          c \<leftarrow> rd m1 (pos_' m1);
          Some (uchar c, m1\<lparr>pos_' := pos_' m1 + 1\<rparr>) }
        else Some (EOF, m1\<lparr>eof_' := True\<rparr>) })"

definition peek :: "AbstractMatcher \<Rightarrow> (int \<times> AbstractMatcher) option" where
  "peek m =
     (if pos_' m < end_' m then do {
        c \<leftarrow> rd m (pos_' m);
        Some (uchar c, m) }
      else if eof_' m then Some (EOF, m)
      else do {
        m1 \<leftarrow> refill m;
        if pos_' m1 < end_' m1 then do {
          c \<leftarrow> rd m1 (pos_' m1);
          Some (uchar c, m1) }
        else Some (EOF, m1\<lparr>eof_' := True\<rparr>) })"

text \<open>\<^verbatim>\<open>set_current(loc)\<close>; a failed \<^verbatim>\<open>assert\<close> ends the program, which is \<open>None\<close>.\<close>

definition set_current :: "nat \<Rightarrow> AbstractMatcher \<Rightarrow> AbstractMatcher option" where
  "set_current loc m =
     (if \<not> loc \<le> end_' m then None
      else do {
        let m1 = m\<lparr>pos_' := loc, cur_' := loc\<rparr>;
        m2 \<leftarrow> (if cur_' m1 > 0 then do {
                 c \<leftarrow> rd m1 (loc - 1);
                 Some (m1\<lparr>got_' := uchar c\<rparr>) }
               else Some (m1\<lparr>got_' := UNK\<rparr>));
        if loc < end_' m2 then do {
          c \<leftarrow> rd m2 loc;
          Some (m2\<lparr>chr_' := uchar c\<rparr>) }
        else Some (m2\<lparr>chr_' := UNK\<rparr>) })"

subsection \<open>Lexer primitives\<close>

text \<open>\<^verbatim>\<open>input()\<close>, the member without arguments.\<close>

definition input :: "AbstractMatcher \<Rightarrow> (int \<times> AbstractMatcher) option" where
  "input m = do {
     m1 \<leftarrow> (if pos_' m < end_' m then Some (m\<lparr>got_' := chr_' m, pos_' := pos_' m + 1\<rparr>)
            else do {
              (c, m') \<leftarrow> get m;
              Some (m'\<lparr>got_' := c\<rparr>) });
     m2 \<leftarrow> (if pos_' m1 < end_' m1 then do {
              c \<leftarrow> rd m1 (pos_' m1);
              Some (m1\<lparr>chr_' := uchar c\<rparr>) }
            else Some m1);
     let m3 = m2\<lparr>cur_' := pos_' m2\<rparr>;
     Some (got_' m3, m3) }"


subsection \<open>Accessors\<close>

text \<open>\<^verbatim>\<open>lineno()\<close>: the loop over the offsets below \<^verbatim>\<open>txt_\<close> adds one for each newline.\<close>

fun lineno_loop :: "AbstractMatcher \<Rightarrow> nat list \<Rightarrow> nat \<Rightarrow> nat option" where
  "lineno_loop m [] n = Some n"
| "lineno_loop m (s # ss) n = do {
     c \<leftarrow> rd m s;
     lineno_loop m ss (n + (if c = NL then 1 else 0)) }"

definition lineno :: "AbstractMatcher \<Rightarrow> nat option" where
  "lineno m = lineno_loop m [0..<txt_' m] (lno_' m)"

text \<open>
  \<^verbatim>\<open>columno()\<close>: the loop runs \<^verbatim>\<open>s\<close> from \<^verbatim>\<open>txt_ - 1\<close> down to \<^verbatim>\<open>buf_\<close>; the argument
  \<open>Suc i\<close> of \<open>columno_loop\<close> is the state in which \<^verbatim>\<open>s\<close> is at offset \<open>i\<close>, and \<open>0\<close> the
  one in which the loop has ended.
\<close>

fun columno_loop :: "AbstractMatcher \<Rightarrow> nat \<Rightarrow> nat option" where
  "columno_loop m 0 = Some (cno_' m + txt_' m)"
| "columno_loop m (Suc i) = do {
     c \<leftarrow> rd m i;
     if c = NL then Some (txt_' m - i - 1) else columno_loop m i }"

definition columno :: "AbstractMatcher \<Rightarrow> nat option" where
  "columno m = columno_loop m (txt_' m)"

definition first :: "AbstractMatcher \<Rightarrow> nat" where
  "first m = num_' m + txt_' m"

definition at_bob :: "AbstractMatcher \<Rightarrow> bool" where
  "at_bob m = (got_' m = BOB)"

text \<open>\<^verbatim>\<open>at_end()\<close>: \<^verbatim>\<open>peek()\<close> is called only when the left operands do not decide.\<close>

definition at_end :: "AbstractMatcher \<Rightarrow> (bool \<times> AbstractMatcher) option" where
  "at_end m =
     (if pos_' m = end_' m then
        (if eof_' m then Some (True, m)
         else do {
           (c, m1) \<leftarrow> peek m;
           Some (c = EOF, m1) })
      else Some (False, m))"

subsection \<open>The engine and \<^verbatim>\<open>matches\<close>\<close>

text \<open>
  The pure virtual \<^verbatim>\<open>match(method)\<close> is supplied by the engine: a parameter of everything
  that calls it. It returns the accept index and the matcher it leaves, or does not return.
\<close>

type_synonym engine = "Method \<Rightarrow> AbstractMatcher \<Rightarrow> (nat \<times> AbstractMatcher) option"

text \<open>
  \<^verbatim>\<open>matches()\<close>: \<^verbatim>\<open>at_end()\<close> is evaluated only after a nonzero \<^verbatim>\<open>match\<close>; the result is
  \<^verbatim>\<open>mat_\<close> converted to \<^verbatim>\<open>size_t\<close>.
\<close>

definition matches :: "engine \<Rightarrow> AbstractMatcher \<Rightarrow> (nat \<times> AbstractMatcher) option" where
  "matches match m =
     (if \<not> mat_' m \<and> at_bob m then do {
        (r, m1) \<leftarrow> match MATCH m;
        (b, m2) \<leftarrow> (if r \<noteq> 0 then at_end m1 else Some (False, m1));
        let m3 = m2\<lparr>mat_' := b\<rparr>;
        Some (of_bool (mat_' m3), m3) }
      else Some (of_bool (mat_' m), m))"

subsection \<open>The iterator\<close>

text \<open>
  An iterator holds a pointer to a matcher and a method. Matchers live in a store from
  addresses to matchers; the null pointer is \<open>None\<close>, and following a null or dangling
  pointer has no defined behaviour. The default constructor leaves \<^verbatim>\<open>method_\<close>
  uninitialised: \<open>u\<close> is the value it happens to hold.
\<close>

type_synonym addr = nat
type_synonym store = "addr \<rightharpoonup> AbstractMatcher"

record Iterator =
  matcher_' :: "addr option"
  method_' :: Method

definition Iterator_void :: "Method \<Rightarrow> Iterator" where
  "Iterator_void u = \<lparr>matcher_' = None, method_' = u\<rparr>"

definition Iterator_ctor ::
  "engine \<Rightarrow> addr option \<Rightarrow> Method \<Rightarrow> store \<Rightarrow> (Iterator \<times> store) option" where
  "Iterator_ctor match matcher method h =
     (case matcher of
        None \<Rightarrow> Some (\<lparr>matcher_' = None, method_' = method\<rparr>, h)
      | Some a \<Rightarrow> do {
          m \<leftarrow> h a;
          m1 \<leftarrow> reset None m;
          (r, m2) \<leftarrow> match method m1;
          Some (\<lparr>matcher_' = (if r = 0 then None else Some a), method_' = method\<rparr>,
                h(a \<mapsto> m2)) })"

text \<open>\<^verbatim>\<open>operator++()\<close>, the preincrement.\<close>

definition Iterator_incr :: "engine \<Rightarrow> Iterator \<Rightarrow> store \<Rightarrow> (Iterator \<times> store) option" where
  "Iterator_incr match it h = do {
     a \<leftarrow> matcher_' it;
     m \<leftarrow> h a;
     (r, m1) \<leftarrow> match (method_' it) m;
     Some (if r = 0 then it\<lparr>matcher_' := None\<rparr> else it, h(a \<mapsto> m1)) }"

text \<open>\<^verbatim>\<open>operator==\<close>.\<close>

definition Iterator_eq :: "Iterator \<Rightarrow> Iterator \<Rightarrow> bool" where
  "Iterator_eq l r = (matcher_' l = matcher_' r)"

subsection \<open>The input as a whole, and matchers that follow it\<close>

text \<open>
  The claims on line and column numbers speak about the whole input, which the matcher
  does not keep. \<open>tracks inp m\<close> says that \<open>m\<close> has followed the input \<open>inp\<close> so far:
  the bytes of the region before the match start are the bytes of \<open>inp\<close> from offset
  \<^verbatim>\<open>num_\<close> on, \<^verbatim>\<open>lno_\<close> has counted the newlines before offset \<^verbatim>\<open>num_\<close>, and \<^verbatim>\<open>cno_\<close> is
  \<^verbatim>\<open>num_\<close> as long as there is no newline before that offset.
\<close>

definition count_nl :: "string \<Rightarrow> nat" where
  "count_nl s = length (filter (\<lambda>c. c = NL) s)"

text \<open>The offset of the last newline of \<open>inp\<close> before offset \<open>k\<close>, if there is one.\<close>

fun prev_nl :: "string \<Rightarrow> nat \<Rightarrow> nat option" where
  "prev_nl inp 0 = None"
| "prev_nl inp (Suc j) = (if inp ! j = NL then Some j else prev_nl inp j)"

definition tracks :: "string \<Rightarrow> AbstractMatcher \<Rightarrow> bool" where
  "tracks inp m \<longleftrightarrow>
     txt_' m \<le> max_' m \<and>
     num_' m + txt_' m \<le> length inp \<and>
     (\<forall>i \<in> {0..<txt_' m}. buf_' m i = inp ! (num_' m + i)) \<and>
     lno_' m = 1 + count_nl (take (num_' m) inp) \<and>
     (prev_nl inp (num_' m) = None \<longrightarrow> cno_' m = num_' m)"

text \<open>
  The part of \<open>tracks\<close> that concerns the bytes alone: the region before the match start
  holds the bytes of \<open>inp\<close> from offset \<^verbatim>\<open>num_\<close> on.
\<close>

definition window :: "string \<Rightarrow> AbstractMatcher \<Rightarrow> bool" where
  "window inp m \<longleftrightarrow>
     txt_' m \<le> max_' m \<and>
     num_' m + txt_' m \<le> length inp \<and>
     (\<forall>i \<in> {0..<txt_' m}. buf_' m i = inp ! (num_' m + i))"

text \<open>
  The column as the specification words it: the offset of the match start minus the offset
  of the previous newline, or minus 0 when there is none.
\<close>

definition spec_columno :: "string \<Rightarrow> nat \<Rightarrow> nat" where
  "spec_columno inp k = (case prev_nl inp k of Some j \<Rightarrow> k - j | None \<Rightarrow> k - 0)"

subsection \<open>Example matchers\<close>

text \<open>
  The matcher a constructor call without an option string leaves, on a region that held
  NUL bytes, with options \<open>ov\<close> and input \<open>inp\<close>.
\<close>

definition fresh :: "Option \<Rightarrow> Input \<Rightarrow> AbstractMatcher" where
  "fresh ov inp =
     \<lparr>opt_' = ov, buf_' = (\<lambda>i. NUL), txt_' = 0, len_' = 0, cap_' = 0, cur_' = 0, pos_' = 0,
      end_' = 0, max_' = 8192, ind_' = 0, blk_' = 0, got_' = BOB, chr_' = UNK, lno_' = 1,
      cno_' = 0, num_' = 0, eof_' = False, mat_' = False, in_' = inp\<rparr>"

text \<open>
  The matcher an engine leaves that has read the bytes \<open>bs\<close> into the region and has
  matched the \<open>n\<close> bytes from offset \<open>k\<close> on, with \<open>k + n \<le> length bs\<close>: the NUL
  sentinel stands behind the match, the byte it displaced is the held character, and the
  last byte of the match is the character looked at last.
\<close>

definition loaded :: "string \<Rightarrow> nat \<Rightarrow> nat \<Rightarrow> AbstractMatcher" where
  "loaded bs k n =
     (fresh \<lparr>A = False, N = False, T = 8\<rparr> [])
       \<lparr>buf_' := (\<lambda>i. if i = k + n then NUL else if i < length bs then bs ! i else NUL),
        txt_' := k, len_' := n, cap_' := 1, cur_' := k + n, pos_' := k + n,
        end_' := length bs,
        got_' := (if k + n = 0 then BOB else uchar (bs ! (k + n - 1))),
        chr_' := (if k + n < length bs then uchar (bs ! (k + n)) else UNK)\<rparr>"

text \<open>
  An engine that reads one block of input and reports the bytes behind the position as the
  match, or no match when there are none; and one that never returns.
\<close>

definition block_engine :: engine where
  "block_engine method m = do {
     m1 \<leftarrow> refill m;
     if pos_' m1 < end_' m1
     then Some (1, m1\<lparr>txt_' := pos_' m1, len_' := end_' m1 - pos_' m1, cap_' := 1,
                      cur_' := end_' m1, pos_' := end_' m1, got_' := UNK, chr_' := UNK\<rparr>)
     else Some (0, m1\<lparr>cap_' := 0\<rparr>) }"

definition no_engine :: engine where
  "no_engine method m = None"

text \<open>
  \<open>reads n f\<close> calls the member \<open>f\<close> (\<^verbatim>\<open>get\<close>, \<^verbatim>\<open>peek\<close>, \<^verbatim>\<open>input\<close> or \<^verbatim>\<open>matches\<close>)
  \<open>n\<close> times in a row and collects what the calls return.
\<close>

fun reads ::
  "nat \<Rightarrow> (AbstractMatcher \<Rightarrow> ('a \<times> AbstractMatcher) option) \<Rightarrow> AbstractMatcher
     \<Rightarrow> ('a list \<times> AbstractMatcher) option" where
  "reads 0 f m = Some ([], m)"
| "reads (Suc n) f m = do {
     (c, m1) \<leftarrow> f m;
     (cs, m2) \<leftarrow> reads n f m1;
     Some (c # cs, m2) }"

text \<open>The bytes the region holds, up to \<^verbatim>\<open>end_\<close>.\<close>

definition buffered :: "AbstractMatcher \<Rightarrow> string" where
  "buffered m = map (buf_' m) [0..<end_' m]"

text \<open>
  Modelled from the spec: an engine, whose \<^verbatim>\<open>match\<close> is not part of these sources. The
  spec gives its contract: it sets the match start, the match length, the cursor, the
  position, \<^verbatim>\<open>got_\<close>, \<^verbatim>\<open>chr_\<close> and the accept index; on a match the byte at the position is
  saved as the held character and overwritten with NUL, and the held byte is restored before
  the region is read again. The pattern of \<open>fixed_engine n\<close> is any \<open>n\<close> bytes: from the
  cursor on it reads \<open>n\<close> bytes with \<^verbatim>\<open>get()\<close> and reports them as the match, or reports
  no match when the input ends before.
\<close>

definition fixed_engine :: "nat \<Rightarrow> engine" where
  "fixed_engine n method m = do {
     m1 \<leftarrow> (if pos_' m < end_' m then wr (pos_' m) (to_char (chr_' m)) m else Some m);
     let m2 = m1\<lparr>txt_' := cur_' m1, pos_' := cur_' m1\<rparr>;
     (cs, m3) \<leftarrow> reads n get m2;
     if EOF \<in> set cs then Some (0, m3\<lparr>cap_' := 0\<rparr>)
     else do {
       let m4 = m3\<lparr>len_' := n, cap_' := 1, cur_' := pos_' m3,
                    got_' := (if cs = [] then got_' m3 else last cs)\<rparr>;
       m5 \<leftarrow> (if pos_' m4 < end_' m4 then do {
                 c \<leftarrow> rd m4 (pos_' m4);
                 Some (m4\<lparr>chr_' := uchar c\<rparr>) }
               else Some (m4\<lparr>chr_' := UNK\<rparr>));
       m6 \<leftarrow> wr (pos_' m5) NUL m5;
       Some (1, m6) } }"

text \<open>
  A run on the input \<^verbatim>\<open>ab\ncd\<close>: the engine matches \<^verbatim>\<open>ab\<close>, \<^verbatim>\<open>input()\<close> reads the
  newline, and the engine matches \<^verbatim>\<open>cd\<close>. \<open>after_input\<close> is the matcher after the first
  two steps and \<open>lost_newline\<close> the one after all three.
\<close>

definition after_input :: "AbstractMatcher option" where
  "after_input =
     Option.bind
       (map_option snd
          (fixed_engine 2 SCAN
             (fresh \<lparr>A = False, N = False, T = 8\<rparr> [CHR ''a'', CHR ''b'', NL, CHR ''c'', CHR ''d''])))
       (map_option snd \<circ> input)"

definition lost_newline :: "AbstractMatcher option" where
  "lost_newline = Option.bind after_input (map_option snd \<circ> fixed_engine 2 SCAN)"

section \<open>Properties\<close>

lemma init_fresh: "init (\<lambda>i. NUL) ov inp None = Some (fresh ov inp)"
  by (simp add: init_def reset_def wr_def fresh_def BLOCK_def fun_upd_idem)

subsection \<open>Options\<close>

lemma parse_opt_no_T:
  "CHR ''T'' \<notin> set cs \<Longrightarrow> \<exists>ov. parse_opt cs opt = Some ov \<and> T ov = T opt"
proof (induction cs arbitrary: opt)
  case Nil
  show ?case by simp
next
  case (Cons c cs)
  then have nT: "c \<noteq> CHR ''T''" "CHR ''T'' \<notin> set cs" by auto
  show ?case
    using Cons.IH [OF nT(2), of opt] Cons.IH [OF nT(2), of "opt\<lparr>A := True\<rparr>"]
      Cons.IH [OF nT(2), of "opt\<lparr>N := True\<rparr>"] nT(1)
    by simp
qed

lemma parse_opt_prefix:
  "CHR ''T'' \<notin> set pre \<Longrightarrow> NUL \<notin> set pre \<Longrightarrow>
   \<exists>opt'. parse_opt (pre @ cs) opt = parse_opt cs opt'"
proof (induction pre arbitrary: opt)
  case Nil
  show ?case by auto
next
  case (Cons c pre)
  then have h: "c \<noteq> CHR ''T''" "c \<noteq> NUL" "CHR ''T'' \<notin> set pre" "NUL \<notin> set pre"
    by auto
  show ?case
    using Cons.IH [OF h(3,4), of opt] Cons.IH [OF h(3,4), of "opt\<lparr>A := True\<rparr>"]
      Cons.IH [OF h(3,4), of "opt\<lparr>N := True\<rparr>"] h(1,2)
    by simp
qed

lemma parse_opt_at_T_eq:
  "x \<noteq> NUL \<Longrightarrow> parse_opt (CHR ''T'' # CHR ''='' # x # cs) opt
     = parse_opt cs (opt\<lparr>T := (if isdigit x then digit_val x else 0)\<rparr>)"
  by (simp add: NUL_def)

lemma parse_opt_at_T:
  "x \<noteq> NUL \<Longrightarrow> x \<noteq> CHR ''='' \<Longrightarrow> parse_opt (CHR ''T'' # x # cs) opt
     = parse_opt cs (opt\<lparr>T := (if isdigit x then digit_val x else 0)\<rparr>)"
  by (simp add: NUL_def)

lemma reset_Some:
  "0 < max_' m \<Longrightarrow> parse_opt s \<lparr>A = False, N = False, T = 8\<rparr> = Some ov \<Longrightarrow>
   \<exists>m'. reset (Some s) m = Some m' \<and> opt_' m' = ov"
  by (simp add: reset_def wr_def)

text \<open>
  What \<^verbatim>\<open>reset\<close> makes of an option string that holds one \<^verbatim>\<open>T\<close>, followed by \<^verbatim>\<open>=x\<close>
  or by \<^verbatim>\<open>x\<close> for a character \<open>x\<close> of the string (in the second form not \<^verbatim>\<open>=\<close>): the
  tab width is the value of \<open>x\<close> when \<open>x\<close> is a digit, so the digits 1 to 9 set the
  width as documented, and it is 0 when \<open>x\<close> is not a digit. The width is the default 8
  when the string holds no \<^verbatim>\<open>T\<close>.
\<close>

lemma reset_single_T:
  assumes "0 < max_' m" and "CHR ''T'' \<notin> set pre" and "NUL \<notin> set pre"
    and "CHR ''T'' \<notin> set post" and "x \<noteq> NUL"
  shows "(\<exists>m'. reset (Some (pre @ ''T='' @ x # post)) m = Some m' \<and>
            T (opt_' m') = (if isdigit x then digit_val x else 0)) \<and>
         (x \<noteq> CHR ''='' \<longrightarrow>
           (\<exists>m'. reset (Some (pre @ ''T'' @ x # post)) m = Some m' \<and>
              T (opt_' m') = (if isdigit x then digit_val x else 0))) \<and>
         (\<exists>m'. reset (Some post) m = Some m' \<and> T (opt_' m') = 8)"
proof (intro conjI impI)
  let ?d = "\<lparr>A = False, N = False, T = 8\<rparr>"
  let ?v = "if isdigit x then digit_val x else 0"
  obtain o1 where o1: "parse_opt (pre @ ''T='' @ x # post) ?d = parse_opt (''T='' @ x # post) o1"
    using parse_opt_prefix [OF assms(2,3)] by blast
  obtain o2 where o2: "parse_opt post (o1\<lparr>T := ?v\<rparr>) = Some o2" "T o2 = ?v"
    using parse_opt_no_T [OF assms(4), of "o1\<lparr>T := ?v\<rparr>"] by auto
  have "parse_opt (pre @ ''T='' @ x # post) ?d = Some o2"
    using o1 o2 parse_opt_at_T_eq [OF assms(5), of post o1] by simp
  from reset_Some [OF assms(1) this] o2
  show "\<exists>m'. reset (Some (pre @ ''T='' @ x # post)) m = Some m' \<and> T (opt_' m') = ?v"
    by auto
next
  let ?d = "\<lparr>A = False, N = False, T = 8\<rparr>"
  let ?v = "if isdigit x then digit_val x else 0"
  assume ne: "x \<noteq> CHR ''=''"
  obtain o1 where o1: "parse_opt (pre @ ''T'' @ x # post) ?d = parse_opt (''T'' @ x # post) o1"
    using parse_opt_prefix [OF assms(2,3)] by blast
  obtain o2 where o2: "parse_opt post (o1\<lparr>T := ?v\<rparr>) = Some o2" "T o2 = ?v"
    using parse_opt_no_T [OF assms(4), of "o1\<lparr>T := ?v\<rparr>"] by auto
  have "parse_opt (pre @ ''T'' @ x # post) ?d = Some o2"
    using o1 o2 parse_opt_at_T [OF assms(5) ne, of post o1] by simp
  from reset_Some [OF assms(1) this] o2
  show "\<exists>m'. reset (Some (pre @ ''T'' @ x # post)) m = Some m' \<and> T (opt_' m') = ?v"
    by auto
next
  let ?d = "\<lparr>A = False, N = False, T = 8\<rparr>"
  obtain o2 where o2: "parse_opt post ?d = Some o2" "T o2 = 8"
    using parse_opt_no_T [OF assms(4), of ?d] by auto
  from reset_Some [OF assms(1) o2(1)] o2
  show "\<exists>m'. reset (Some post) m = Some m' \<and> T (opt_' m') = 8"
    by auto
qed

text \<open>
  Claim C4 fails on the code. A \<^verbatim>\<open>T\<close> that no digit follows is not ignored: constructed
  with the option string \<^verbatim>\<open>T=x\<close> or \<^verbatim>\<open>Tx\<close> the matcher has the tab width 0, not the
  default 8, and so it has with \<^verbatim>\<open>T0\<close> and \<^verbatim>\<open>T=0\<close>, whose digit is not in 1 to 9; the
  member \<^verbatim>\<open>Option::T\<close> is documented as between 1 and 9 with default 8. The character
  after the \<^verbatim>\<open>T\<close> is consumed even when it is no digit, so \<^verbatim>\<open>TT5\<close> gives 0 and \<^verbatim>\<open>TA\<close>
  does not set \<^verbatim>\<open>A\<close>. With \<^verbatim>\<open>T\<close> or \<^verbatim>\<open>T=\<close> at the end of the string the loop steps
  over the terminating NUL and reads behind the string, which is the result \<open>None\<close>.
\<close>

theorem tab_width_malformed:
  "map_option (T \<circ> opt_')
     (init (\<lambda>i. NUL) \<lparr>A = False, N = False, T = 8\<rparr> [] (Some ''T=x'')) = Some 0 \<and>
   map_option (T \<circ> opt_')
     (init (\<lambda>i. NUL) \<lparr>A = False, N = False, T = 8\<rparr> [] (Some ''Tx'')) = Some 0 \<and>
   map_option (T \<circ> opt_')
     (init (\<lambda>i. NUL) \<lparr>A = False, N = False, T = 8\<rparr> [] (Some ''T0'')) = Some 0 \<and>
   map_option (T \<circ> opt_')
     (init (\<lambda>i. NUL) \<lparr>A = False, N = False, T = 8\<rparr> [] (Some ''T=0'')) = Some 0 \<and>
   map_option (T \<circ> opt_')
     (init (\<lambda>i. NUL) \<lparr>A = False, N = False, T = 8\<rparr> [] (Some ''TT5'')) = Some 0 \<and>
   map_option opt_'
     (init (\<lambda>i. NUL) \<lparr>A = False, N = False, T = 8\<rparr> [] (Some ''TA''))
     = Some \<lparr>A = False, N = False, T = 0\<rparr> \<and>
   init (\<lambda>i. NUL) \<lparr>A = False, N = False, T = 8\<rparr> [] (Some ''T'') = None \<and>
   init (\<lambda>i. NUL) \<lparr>A = False, N = False, T = 8\<rparr> [] (Some ''A;T='') = None"
  by (simp add: init_def reset_def wr_def NUL_def isdigit_def digit_val_def BLOCK_def)

subsection \<open>Reset\<close>

text \<open>
  Claim C9. \<^verbatim>\<open>reset()\<close> without an option string returns on every matcher with a region,
  leaves the options as they are, and assigns the match state, the positions, the position
  tracker, the block size and the first byte of the region the values they have after
  construction; the capacity, the other bytes of the region and the input are not touched.
  A \<^verbatim>\<open>reset\<close> with an option string differs from it in the options only, which are then
  what the parser makes of the string, starting from the defaults.
\<close>

theorem reset_without_options:
  assumes "0 < max_' m"
  shows "\<exists>m'. reset None m = Some m' \<and>
           opt_' m' = opt_' m \<and>
           m' = m\<lparr>buf_' := (buf_' m)(0 := NUL), txt_' := 0, len_' := 0, cap_' := 0, cur_' := 0,
                   pos_' := 0, end_' := 0, ind_' := 0, blk_' := 0, got_' := BOB, chr_' := UNK,
                   lno_' := 1, cno_' := 0, num_' := 0, eof_' := False, mat_' := False\<rparr> \<and>
           (\<forall>junk ov inp mi. init junk ov inp None = Some mi \<longrightarrow>
              buf_' m' 0 = buf_' mi 0 \<and> txt_' m' = txt_' mi \<and> len_' m' = len_' mi \<and>
              cap_' m' = cap_' mi \<and> cur_' m' = cur_' mi \<and> pos_' m' = pos_' mi \<and>
              end_' m' = end_' mi \<and> ind_' m' = ind_' mi \<and> blk_' m' = blk_' mi \<and>
              got_' m' = got_' mi \<and> chr_' m' = chr_' mi \<and> lno_' m' = lno_' mi \<and>
              cno_' m' = cno_' mi \<and> num_' m' = num_' mi \<and> eof_' m' = eof_' mi \<and>
              mat_' m' = mat_' mi) \<and>
           (\<forall>s m''. reset (Some s) m = Some m'' \<longrightarrow>
              parse_opt s \<lparr>A = False, N = False, T = 8\<rparr> = Some (opt_' m'') \<and>
              m'' = m'\<lparr>opt_' := opt_' m''\<rparr>)"
proof -
  let ?m' = "m\<lparr>buf_' := (buf_' m)(0 := NUL), txt_' := 0, len_' := 0, cap_' := 0, cur_' := 0,
                   pos_' := 0, end_' := 0, ind_' := 0, blk_' := 0, got_' := BOB, chr_' := UNK,
                   lno_' := 1, cno_' := 0, num_' := 0, eof_' := False, mat_' := False\<rparr>"
  have r: "reset None m = Some ?m'"
    using assms by (simp add: reset_def wr_def)
  have i: "\<forall>junk ov inp mi. init junk ov inp None = Some mi \<longrightarrow>
              buf_' ?m' 0 = buf_' mi 0 \<and> txt_' ?m' = txt_' mi \<and> len_' ?m' = len_' mi \<and>
              cap_' ?m' = cap_' mi \<and> cur_' ?m' = cur_' mi \<and> pos_' ?m' = pos_' mi \<and>
              end_' ?m' = end_' mi \<and> ind_' ?m' = ind_' mi \<and> blk_' ?m' = blk_' mi \<and>
              got_' ?m' = got_' mi \<and> chr_' ?m' = chr_' mi \<and> lno_' ?m' = lno_' mi \<and>
              cno_' ?m' = cno_' mi \<and> num_' ?m' = num_' mi \<and> eof_' ?m' = eof_' mi \<and>
              mat_' ?m' = mat_' mi"
    by (auto simp add: init_def reset_def wr_def BLOCK_def)
  have s: "\<forall>s m''. reset (Some s) m = Some m'' \<longrightarrow>
              parse_opt s \<lparr>A = False, N = False, T = 8\<rparr> = Some (opt_' m'') \<and>
              m'' = ?m'\<lparr>opt_' := opt_' m''\<rparr>"
    using assms by (auto simp add: reset_def wr_def split: bind_splits)
  show ?thesis
    using r i s by simp
qed

theorem reset_without_options_witness:
  "opt_' (the (reset None (fresh \<lparr>A = True, N = True, T = 4\<rparr> ''abc''))) = \<lparr>A = True, N = True, T = 4\<rparr> \<and>
   opt_' (the (reset (Some ''N'') (fresh \<lparr>A = True, N = True, T = 4\<rparr> ''abc''))) = \<lparr>A = False, N = True, T = 8\<rparr>"
proof -
  have h: "0 < max_' (fresh \<lparr>A = True, N = True, T = 4\<rparr> ''abc'')"
    by (simp add: fresh_def)
  have o: "opt_' (fresh \<lparr>A = True, N = True, T = 4\<rparr> ''abc'') = \<lparr>A = True, N = True, T = 4\<rparr>"
    by (simp add: fresh_def)
  have p: "\<exists>m''. reset (Some ''N'') (fresh \<lparr>A = True, N = True, T = 4\<rparr> ''abc'') = Some m''"
    by (simp add: reset_def wr_def fresh_def)
  have q: "parse_opt ''N'' \<lparr>A = False, N = False, T = 8\<rparr> = Some \<lparr>A = False, N = True, T = 8\<rparr>"
    by (simp add: NUL_def)
  obtain m' where m': "reset None (fresh \<lparr>A = True, N = True, T = 4\<rparr> ''abc'') = Some m'"
      "opt_' m' = opt_' (fresh \<lparr>A = True, N = True, T = 4\<rparr> ''abc'')"
      "\<forall>s m''. reset (Some s) (fresh \<lparr>A = True, N = True, T = 4\<rparr> ''abc'') = Some m'' \<longrightarrow>
         parse_opt s \<lparr>A = False, N = False, T = 8\<rparr> = Some (opt_' m'') \<and>
         m'' = m'\<lparr>opt_' := opt_' m''\<rparr>"
    using reset_without_options [OF h] by blast
  obtain m'' where m'': "reset (Some ''N'') (fresh \<lparr>A = True, N = True, T = 4\<rparr> ''abc'') = Some m''"
    using p by blast
  have "parse_opt ''N'' \<lparr>A = False, N = False, T = 8\<rparr> = Some (opt_' m'')"
    using m'(3) m'' by blast
  then have "opt_' m'' = \<lparr>A = False, N = True, T = 8\<rparr>"
    using q by simp
  then show ?thesis
    using m'(1,2) m'' o by simp
qed

subsection \<open>Positioning\<close>

lemma uchar_range: "0 \<le> uchar c \<and> uchar c < 256"
proof -
  have "uchar c mod 256 = uchar c" by (simp add: uchar_def)
  moreover have "0 \<le> uchar c mod 256 \<and> uchar c mod 256 < 256" by simp
  ultimately show ?thesis by simp
qed

text \<open>
  Claim C3, as the code has it. For \<open>loc \<le> end\<close> (inside the region), \<^verbatim>\<open>set_current(loc)\<close>
  sets \<^verbatim>\<open>pos_\<close> and \<^verbatim>\<open>cur_\<close> to \<open>loc\<close>, \<^verbatim>\<open>got_\<close> to the byte before \<open>loc\<close> when
  \<open>loc > 0\<close> and to the marker UNK when \<open>loc = 0\<close>, and \<^verbatim>\<open>chr_\<close> to the byte at \<open>loc\<close> or
  to UNK when \<open>loc = end\<close>. It never sets \<^verbatim>\<open>got_\<close> to BOB.
\<close>

theorem set_current_sets:
  assumes "loc \<le> end_' m" and "end_' m \<le> max_' m"
  shows "\<exists>m'. set_current loc m = Some m' \<and> pos_' m' = loc \<and> cur_' m' = loc \<and>
           got_' m' = (if loc > 0 then uchar (buf_' m (loc - 1)) else UNK) \<and>
           chr_' m' = (if loc < end_' m then uchar (buf_' m loc) else UNK) \<and>
           got_' m' \<noteq> BOB"
proof -
  have "uchar (buf_' m (loc - 1)) \<noteq> BOB"
    using uchar_range [of "buf_' m (loc - 1)"] by (simp add: BOB_def)
  then show ?thesis
    using assms by (auto simp add: set_current_def rd_def Let_def UNK_def BOB_def)
qed

theorem set_current_sets_witness:
  "map_option (\<lambda>m. (pos_' m, cur_' m, got_' m, chr_' m)) (set_current 0 (loaded ''ab'' 0 2)) = Some (0, 0, 256, 97) \<and>
   map_option (\<lambda>m. (pos_' m, cur_' m, got_' m, chr_' m)) (set_current 2 (loaded ''ab'' 0 2)) = Some (2, 2, 98, 256)"
proof -
  have h: "0 \<le> end_' (loaded ''ab'' 0 2)" "2 \<le> end_' (loaded ''ab'' 0 2)" "end_' (loaded ''ab'' 0 2) \<le> max_' (loaded ''ab'' 0 2)"
    by (simp_all add: loaded_def fresh_def)
  have b: "buf_' (loaded ''ab'' 0 2) 0 = CHR ''a''" "buf_' (loaded ''ab'' 0 2) (Suc 0) = CHR ''b''" "end_' (loaded ''ab'' 0 2) = 2"
    by (simp_all add: loaded_def fresh_def)
  show ?thesis
    using set_current_sets [OF h(1) h(3)] set_current_sets [OF h(2) h(3)] b
    by (auto simp add: uchar_def UNK_def)
qed

text \<open>
  Claim C3 as stated fails: on a matcher just constructed, whose match start is at offset 0
  of the input, \<^verbatim>\<open>set_current(0)\<close> leaves \<^verbatim>\<open>got_\<close> equal to UNK, which is not BOB.
\<close>

theorem set_current_origin_counterexample:
  "map_option got_' (set_current 0 (fresh \<lparr>A = False, N = False, T = 8\<rparr> ''abc'')) = Some UNK \<and> UNK \<noteq> BOB"
  by (simp add: set_current_def fresh_def Let_def UNK_def BOB_def)

subsection \<open>Matching the whole input\<close>

text \<open>
  Claim C10. When no match of the whole input is memoized and \<^verbatim>\<open>got_\<close> is not BOB,
  \<^verbatim>\<open>matches()\<close> returns 0 and leaves the matcher, its input included, as it is, whatever
  the engine: the engine is not called.
\<close>

theorem matches_not_at_bob:
  assumes "\<not> mat_' m" and "got_' m \<noteq> BOB"
  shows "matches match m = Some (0, m)"
  using assms by (simp add: matches_def at_bob_def)

theorem matches_not_at_bob_witness:
  "\<not> mat_' (loaded ''ab'' 0 2) \<and> got_' (loaded ''ab'' 0 2) \<noteq> BOB \<and> matches no_engine (loaded ''ab'' 0 2) = Some (0, loaded ''ab'' 0 2)"
proof -
  have h: "\<not> mat_' (loaded ''ab'' 0 2)" "got_' (loaded ''ab'' 0 2) \<noteq> BOB"
    by (simp_all add: loaded_def fresh_def uchar_def BOB_def)
  show ?thesis
    using matches_not_at_bob [OF h, of no_engine] h by simp
qed

lemma matches_sets_memo:
  "matches match m = Some (r, m') \<Longrightarrow> r = of_bool (mat_' m')"
  by (auto simp add: matches_def Let_def split: if_splits bind_splits)

text \<open>
  Claim C6. When a call of \<^verbatim>\<open>matches()\<close> returns a nonzero value, the memo is set, and any
  number of calls on the matcher it leaves return that value each and leave the matcher, its
  input included, as it is, whatever the engine, also one that never returns: the engine is
  not called.
\<close>

theorem matches_memo:
  assumes "matches match m = Some (r, m')" and "r \<noteq> 0"
  shows "mat_' m' \<and> (\<forall>match' n. reads n (matches match') m' = Some (replicate n r, m'))"
proof -
  have r: "r = of_bool (mat_' m')"
    using matches_sets_memo [OF assms(1)] .
  with assms(2) have m: "mat_' m'" by (cases "mat_' m'") auto
  have one: "matches match' m' = Some (r, m')" for match'
    using m r by (simp add: matches_def)
  have "reads n (matches match') m' = Some (replicate n r, m')" for match' n
    by (induction n) (simp_all add: one)
  with m show ?thesis by blast
qed

lemma block_engine_123:
  "\<exists>m'. matches block_engine (fresh \<lparr>A = False, N = False, T = 8\<rparr> ''123'') = Some (1, m')"
  by (simp add: matches_def at_bob_def block_engine_def refill_def get_into_def Input_get_def
      at_end_def peek_def fresh_def sz_sub_def MATCH_def BOB_def UNK_def EOF_def Let_def)

theorem matches_memo_witness:
  "\<exists>m'. matches block_engine (fresh \<lparr>A = False, N = False, T = 8\<rparr> ''123'') = Some (1, m') \<and>
     reads 3 (matches no_engine) m' = Some ([1, 1, 1], m')"
proof -
  obtain m' where
    m': "matches block_engine (fresh \<lparr>A = False, N = False, T = 8\<rparr> ''123'') = Some (1, m')"
    using block_engine_123 by blast
  have "(1::nat) \<noteq> 0" by simp
  from matches_memo [OF m' this]
  have "reads 3 (matches no_engine) m' = Some (replicate 3 1, m')" by blast
  moreover have "replicate 3 (1::nat) = [1, 1, 1]"
    by (simp add: numeral_3_eq_3)
  ultimately show ?thesis using m' by auto
qed

subsection \<open>Iterators\<close>

text \<open>
  Claim C5. Constructing an iterator on a matcher resets it and calls \<^verbatim>\<open>match\<close>; the
  iterator is the end sentinel if the result is 0 and points to the matcher otherwise.
  An increment calls \<^verbatim>\<open>match\<close> once more, and the iterator becomes the end sentinel
  exactly when the result is 0. Two iterators are equal iff both are end sentinels or both
  point to the same matcher; their methods play no part.
\<close>

theorem iterator_protocol:
  "(h a = Some m \<and> reset None m = Some m1 \<and> match method m1 = Some (r, m2) \<longrightarrow>
      Iterator_ctor match (Some a) method h =
        Some (\<lparr>matcher_' = (if r = 0 then None else Some a), method_' = method\<rparr>, h(a \<mapsto> m2))) \<and>
   (matcher_' it = Some a \<and> h a = Some m \<and> match (method_' it) m = Some (r, m2) \<longrightarrow>
      (\<exists>it'. Iterator_incr match it h = Some (it', h(a \<mapsto> m2)) \<and>
         (matcher_' it' = None \<longleftrightarrow> r = 0) \<and> (r \<noteq> 0 \<longrightarrow> it' = it))) \<and>
   (Iterator_eq it1 it2 \<longleftrightarrow>
      (matcher_' it1 = None \<and> matcher_' it2 = None) \<or>
      (\<exists>b. matcher_' it1 = Some b \<and> matcher_' it2 = Some b))"
  by (cases "matcher_' it1"; cases "matcher_' it2")
     (auto simp add: Iterator_ctor_def Iterator_incr_def Iterator_eq_def)

theorem iterator_protocol_witness:
  "(case Iterator_ctor block_engine (Some 0) FIND [0 \<mapsto> loaded ''xy'' 0 2, 1 \<mapsto> fresh \<lparr>A = False, N = False, T = 8\<rparr> ''ab''] of
      None \<Rightarrow> False
    | Some (it, h) \<Rightarrow>
        matcher_' it = None \<and> Iterator_eq it (Iterator_void SCAN))
   \<and>
   (case Iterator_ctor block_engine (Some 1) FIND [0 \<mapsto> loaded ''xy'' 0 2, 1 \<mapsto> fresh \<lparr>A = False, N = False, T = 8\<rparr> ''ab''] of
      None \<Rightarrow> False
    | Some (it, h) \<Rightarrow>
        matcher_' it = Some 1 \<and> Iterator_eq it \<lparr>matcher_' = Some 1, method_' = SPLIT\<rparr> \<and>
        \<not> Iterator_eq it (Iterator_void FIND) \<and>
        (case Iterator_incr block_engine it h of
           None \<Rightarrow> False
         | Some (it', h') \<Rightarrow> matcher_' it' = None \<and> Iterator_eq it' (Iterator_void SCAN)))"
proof -
  let ?d = "\<lparr>A = False, N = False, T = 8\<rparr>"
  let ?h = "[0 \<mapsto> loaded ''xy'' 0 2, 1 \<mapsto> fresh ?d ''ab''] :: store"
  have h0: "?h 0 = Some (loaded ''xy'' 0 2)" and h1: "?h 1 = Some (fresh ?d ''ab'')"
    by simp_all
  obtain a1 where a1: "reset None (loaded ''xy'' 0 2) = Some a1"
      "max_' a1 = 8192" "end_' a1 = 0" "pos_' a1 = 0" "blk_' a1 = 0" "in_' a1 = []"
    by (simp add: reset_def wr_def loaded_def fresh_def)
  obtain a2 where a2: "block_engine FIND a1 = Some (0, a2)"
    using a1(2-) by (simp add: block_engine_def refill_def get_into_def Input_get_def sz_sub_def)
  obtain b1 where b1: "reset None (fresh ?d ''ab'') = Some b1"
      "max_' b1 = 8192" "end_' b1 = 0" "pos_' b1 = 0" "blk_' b1 = 0" "in_' b1 = ''ab''"
    by (simp add: reset_def wr_def fresh_def)
  obtain b2 where b2: "block_engine FIND b1 = Some (1, b2)"
      "max_' b2 = 8192" "end_' b2 = 2" "pos_' b2 = 2" "blk_' b2 = 0" "in_' b2 = []"
    using b1(2-) by (simp add: block_engine_def refill_def get_into_def Input_get_def sz_sub_def)
  obtain b3 where b3: "block_engine FIND b2 = Some (0, b3)"
    using b2(2-) by (simp add: block_engine_def refill_def get_into_def Input_get_def sz_sub_def)
  let ?it = "\<lparr>matcher_' = Some 1, method_' = FIND\<rparr>"
  have c0: "Iterator_ctor block_engine (Some 0) FIND ?h
              = Some (\<lparr>matcher_' = None, method_' = FIND\<rparr>, ?h(0 \<mapsto> a2))"
    using iterator_protocol [of ?h 0 "loaded ''xy'' 0 2" a1 block_engine FIND 0 a2] h0 a1(1) a2
    by simp
  have c1: "Iterator_ctor block_engine (Some 1) FIND ?h = Some (?it, ?h(1 \<mapsto> b2))"
    using iterator_protocol [of ?h 1 "fresh ?d ''ab''" b1 block_engine FIND 1 b2] h1 b1(1) b2(1)
    by simp
  have i1: "\<exists>it'. Iterator_incr block_engine ?it (?h(1 \<mapsto> b2)) = Some (it', (?h(1 \<mapsto> b2))(1 \<mapsto> b3))
              \<and> matcher_' it' = None"
    using iterator_protocol [of "?h(1 \<mapsto> b2)" 1 b2 _ block_engine FIND 0 b3 ?it] b3
    by simp
  have e: "Iterator_eq \<lparr>matcher_' = None, method_' = FIND\<rparr> (Iterator_void SCAN)"
      "Iterator_eq ?it \<lparr>matcher_' = Some 1, method_' = SPLIT\<rparr>"
      "\<not> Iterator_eq ?it (Iterator_void FIND)"
      "\<And>it'. matcher_' it' = None \<Longrightarrow> Iterator_eq it' (Iterator_void SCAN)"
    using iterator_protocol [of _ _ _ _ _ _ _ _ _ "\<lparr>matcher_' = None, method_' = FIND\<rparr>" "Iterator_void SCAN"]
      iterator_protocol [of _ _ _ _ _ _ _ _ _ ?it "\<lparr>matcher_' = Some 1, method_' = SPLIT\<rparr>"]
      iterator_protocol [of _ _ _ _ _ _ _ _ _ ?it "Iterator_void FIND"]
      iterator_protocol [of _ _ _ _ _ _ _ _ _ _ "Iterator_void SCAN"]
    by (simp_all add: Iterator_void_def)
  show ?thesis
    using c0 c1 i1 e by auto
qed

subsection \<open>Line and column numbers\<close>

lemma count_nl_append: "count_nl (xs @ ys) = count_nl xs + count_nl ys"
  by (simp add: count_nl_def)

lemma prev_nl_less: "prev_nl inp k = Some j \<Longrightarrow> j < k"
  by (induction k) (auto split: if_splits)

lemma prev_nl_None: "prev_nl inp k = None \<longleftrightarrow> (\<forall>j<k. inp ! j \<noteq> NL)"
  by (induction k) (auto simp add: less_Suc_eq)

lemma window_eq:
  assumes "num + txt \<le> length inp" and "\<forall>i<txt. b i = inp ! (num + i)"
  shows "map b [0..<txt] = take txt (drop num inp)"
  using assms by (intro nth_equalityI) auto

lemma window_count:
  assumes "num + txt \<le> length inp" and "\<forall>i<txt. b i = inp ! (num + i)"
  shows "count_nl (take num inp) + length (filter (\<lambda>s. b s = NL) [0..<txt])
           = count_nl (take (num + txt) inp)"
proof -
  have "length (filter (\<lambda>s. b s = NL) [0..<txt]) = count_nl (map b [0..<txt])"
    by (simp add: count_nl_def filter_map comp_def)
  also have "\<dots> = count_nl (take txt (drop num inp))"
    using window_eq [OF assms] by simp
  finally show ?thesis
    by (simp add: take_add count_nl_append)
qed

lemma lineno_loop_count:
  "\<forall>s\<in>set ss. s < max_' m \<Longrightarrow>
   lineno_loop m ss n = Some (n + length (filter (\<lambda>s. buf_' m s = NL) ss))"
  by (induction ss arbitrary: n) (auto simp add: rd_def)

lemma update_loop_count:
  "\<forall>s\<in>set ss. s < max_' m \<Longrightarrow>
   \<exists>t' c'. update_loop m ss (l, t, c)
             = Some (l + length (filter (\<lambda>s. buf_' m s = NL) ss), t', c') \<and>
           ((\<forall>s\<in>set ss. buf_' m s \<noteq> NL) \<longrightarrow> t' = t \<and> c' = c)"
proof (induction ss arbitrary: l t c)
  case Nil
  show ?case by simp
next
  case (Cons s ss)
  then have r: "rd m s = Some (buf_' m s)" and ss: "\<forall>s\<in>set ss. s < max_' m"
    by (simp_all add: rd_def)
  show ?case
  proof (cases "buf_' m s = NL")
    case True
    with Cons.IH [OF ss, of "l + 1" s 0] r show ?thesis by auto
  next
    case False
    with Cons.IH [OF ss, of l t c] r show ?thesis by auto
  qed
qed

lemma update_tracks:
  assumes "tracks inp m"
  shows "\<exists>l c. update m = Some (m\<lparr>lno_' := l, cno_' := c, num_' := num_' m + txt_' m\<rparr>) \<and>
           l = 1 + count_nl (take (num_' m + txt_' m) inp) \<and>
           (prev_nl inp (num_' m + txt_' m) = None \<longrightarrow> c = num_' m + txt_' m)"
proof -
  have b: "\<forall>s\<in>set [0..<txt_' m]. s < max_' m"
    using assms by (auto simp add: tracks_def)
  obtain t' c' where u: "update_loop m [0..<txt_' m] (lno_' m, 0, cno_' m)
             = Some (lno_' m + length (filter (\<lambda>s. buf_' m s = NL) [0..<txt_' m]), t', c')"
      and n: "(\<forall>s\<in>set [0..<txt_' m]. buf_' m s \<noteq> NL) \<longrightarrow> t' = 0 \<and> c' = cno_' m"
    using update_loop_count [OF b, of "lno_' m" 0 "cno_' m"] by blast
  have l: "lno_' m + length (filter (\<lambda>s. buf_' m s = NL) [0..<txt_' m])
            = 1 + count_nl (take (num_' m + txt_' m) inp)"
    using assms window_count [of "num_' m" "txt_' m" inp "buf_' m"] by (simp add: tracks_def)
  have c: "c' + (txt_' m - t') = num_' m + txt_' m" if "prev_nl inp (num_' m + txt_' m) = None"
  proof -
    from that have no: "\<forall>j < num_' m + txt_' m. inp ! j \<noteq> NL"
      by (simp add: prev_nl_None)
    then have "prev_nl inp (num_' m) = None"
      by (simp add: prev_nl_None)
    then have "cno_' m = num_' m"
      using assms by (simp add: tracks_def)
    moreover have "\<forall>s\<in>set [0..<txt_' m]. buf_' m s \<noteq> NL"
      using assms no by (auto simp add: tracks_def)
    ultimately show ?thesis using n by simp
  qed
  have "update m = Some (m\<lparr>lno_' := 1 + count_nl (take (num_' m + txt_' m) inp),
                           cno_' := c' + (txt_' m - t'), num_' := num_' m + txt_' m\<rparr>)"
    using u l by (simp add: update_def)
  then show ?thesis
    using c by (intro exI [of _ "1 + count_nl (take (num_' m + txt_' m) inp)"]
        exI [of _ "c' + (txt_' m - t')"]) simp
qed

lemma lineno_tracks:
  assumes "tracks inp m"
  shows "lineno m = Some (1 + count_nl (take (first m) inp))"
proof -
  have b: "\<forall>s\<in>set [0..<txt_' m]. s < max_' m"
    using assms by (auto simp add: tracks_def)
  show ?thesis
    using assms lineno_loop_count [OF b, of "lno_' m"]
      window_count [of "num_' m" "txt_' m" inp "buf_' m"]
    by (simp add: lineno_def first_def tracks_def)
qed

lemma grow_shift:
  assumes "\<not> need \<le> sz_sub (max_' m) (end_' m)" and "need \<le> txt_' m" and "update m = Some m1"
     and "grow need m = Some (r, m')"
  shows "txt_' m' = 0 \<and> num_' m' = num_' m1 \<and> lno_' m' = lno_' m1 \<and> cno_' m' = cno_' m1"
proof -
  let ?m2 = "m1\<lparr>cur_' := sz_sub (cur_' m1) (txt_' m), ind_' := sz_sub (ind_' m1) (txt_' m),
                      pos_' := sz_sub (pos_' m1) (txt_' m), end_' := sz_sub (end_' m1) (txt_' m)\<rparr>"
  have g: "grow need m = do { m3 \<leftarrow> memmove 0 (txt_' m) (end_' ?m2) ?m2; Some (True, m3\<lparr>txt_' := 0\<rparr>) }"
    using assms(1-3) by (simp add: grow_def Let_def)
  then obtain m3 where m3: "memmove 0 (txt_' m) (end_' ?m2) ?m2 = Some m3" "m' = m3\<lparr>txt_' := 0\<rparr>"
    using assms(4) by (auto split: bind_splits)
  from m3(1) have "num_' m3 = num_' m1 \<and> lno_' m3 = lno_' m1 \<and> cno_' m3 = cno_' m1"
    by (auto simp add: memmove_def split: if_splits)
  with m3(2) show ?thesis by simp
qed

lemma grow_expand:
  assumes "\<not> need \<le> sz_sub (max_' m) (end_' m)" and "\<not> need \<le> txt_' m"
     and "update m = Some m1" and "grow need m = Some (r, m')"
  shows "m' = m \<or>
         (txt_' m' = 0 \<and> num_' m' = num_' m1 \<and> lno_' m' = lno_' m1 \<and> cno_' m' = cno_' m1)"
proof (cases "double_max (max_' m) (sz_sub (end_' m) (txt_' m) + need)")
  case None
  with assms show ?thesis by (simp add: grow_def Let_def)
next
  case (Some mx)
  show ?thesis
  proof (cases "max_' m < mx")
    case True
    with assms Some show ?thesis
      by (simp add: grow_def Let_def split: if_splits) auto
  next
    case False
    with assms Some show ?thesis
      by (simp add: grow_def Let_def)
  qed
qed

lemma grow_tracks:
  assumes "tracks inp m" and "grow need m = Some (r, m')"
  shows "tracks inp m' \<and> first m' = first m"
  using update_tracks [OF assms(1)]
proof (elim exE conjE)
  fix l c
  assume u: "update m = Some (m\<lparr>lno_' := l, cno_' := c, num_' := num_' m + txt_' m\<rparr>)"
    and l: "l = 1 + count_nl (take (num_' m + txt_' m) inp)"
    and c: "prev_nl inp (num_' m + txt_' m) = None \<longrightarrow> c = num_' m + txt_' m"
  have len: "num_' m + txt_' m \<le> length inp"
    using assms(1) by (simp add: tracks_def)
  have "m' = m \<or> (txt_' m' = 0 \<and> num_' m' = num_' m + txt_' m \<and> lno_' m' = l \<and> cno_' m' = c)"
  proof (cases "need \<le> sz_sub (max_' m) (end_' m)")
    case True
    with assms(2) show ?thesis by (simp add: grow_def)
  next
    case far: False
    show ?thesis
    proof (cases "need \<le> txt_' m")
      case True
      from grow_shift [OF far True u assms(2)] show ?thesis by simp
    next
      case False
      from grow_expand [OF far False u assms(2)] show ?thesis by simp
    qed
  qed
  then show ?thesis
  proof
    assume "m' = m"
    with assms(1) show ?thesis by simp
  next
    assume "txt_' m' = 0 \<and> num_' m' = num_' m + txt_' m \<and> lno_' m' = l \<and> cno_' m' = c"
    with l c len show ?thesis
      by (simp add: tracks_def first_def)
  qed
qed

lemma reset_tracks: "reset None m = Some m' \<Longrightarrow> tracks inp m'"
  by (auto simp add: reset_def wr_def tracks_def count_nl_def split: if_splits)

text \<open>
  Where \<^verbatim>\<open>lineno()\<close> is right: for a matcher that has followed the input it is 1 plus the
  number of newlines among the first \<^verbatim>\<open>first()\<close> bytes of the input, and whenever \<^verbatim>\<open>grow\<close>
  returns, by shifting the region, by moving it into a larger one or by leaving it, the
  matcher still follows the input, \<^verbatim>\<open>first()\<close> is what it was, and \<^verbatim>\<open>lineno()\<close> is again 1
  plus that number.
\<close>

lemma lineno_kept_by_grow:
  assumes "tracks inp m"
  shows "lineno m = Some (1 + count_nl (take (first m) inp)) \<and>
         (\<forall>need r m'. grow need m = Some (r, m') \<longrightarrow>
            tracks inp m' \<and> first m' = first m \<and>
            lineno m' = Some (1 + count_nl (take (first m') inp)))"
  using lineno_tracks [OF assms] grow_tracks [OF assms] lineno_tracks by blast

lemma grow_shift_returns:
  assumes "tracks inp m" and "\<not> need \<le> sz_sub (max_' m) (end_' m)" and "need \<le> txt_' m"
    and "txt_' m \<le> end_' m" and "end_' m \<le> max_' m"
  shows "\<exists>m'. grow need m = Some (True, m')"
proof -
  from update_tracks [OF assms(1)] show ?thesis
  proof (elim exE conjE)
    fix l c
    assume "update m = Some (m\<lparr>lno_' := l, cno_' := c, num_' := num_' m + txt_' m\<rparr>)"
    then show ?thesis
      using assms(2-) by (simp add: grow_def Let_def memmove_def sz_sub_def)
  qed
qed

lemma two: "(2::nat) = Suc (Suc 0)"
  by simp

lemmas run_defs =
  fixed_engine_def input_def get_def refill_def get_into_def Input_get_def rd_def wr_def
  fresh_def uchar_def to_char_def NUL_def NL_def sz_sub_def EOF_def UNK_def BOB_def Let_def

text \<open>
  Claim C7 fails on the code. \<^verbatim>\<open>input()\<close> steps over the position without writing the
  held character back into the region, as \<^verbatim>\<open>unput\<close>, \<^verbatim>\<open>rest\<close> and \<^verbatim>\<open>less\<close> do
  before they move it; the byte the NUL sentinel displaced is then lost from the region. On
  the input \<^verbatim>\<open>ab\ncd\<close>, after a match of \<^verbatim>\<open>ab\<close>, an \<^verbatim>\<open>input()\<close> that returns the
  newline and a match of \<^verbatim>\<open>cd\<close>, the region holds \<^verbatim>\<open>ab\<close>, NUL, \<^verbatim>\<open>cd\<close>: \<^verbatim>\<open>first()\<close> is
  3 and \<^verbatim>\<open>lineno()\<close> is 1, where the first three bytes of the input hold one newline and
  the line is 2.
\<close>

theorem lineno_after_input:
  "Option.bind
     (map_option snd
        (fixed_engine 2 SCAN
           (fresh \<lparr>A = False, N = False, T = 8\<rparr> [CHR ''a'', CHR ''b'', NL, CHR ''c'', CHR ''d''])))
     (map_option fst \<circ> input) = Some (uchar NL) \<and>
   map_option buffered lost_newline = Some [CHR ''a'', CHR ''b'', NUL, CHR ''c'', CHR ''d''] \<and>
   map_option txt_' lost_newline = Some 3 \<and>
   map_option len_' lost_newline = Some 2 \<and>
   map_option first lost_newline = Some 3 \<and>
   Option.bind lost_newline lineno = Some 1 \<and>
   1 + count_nl (take 3 [CHR ''a'', CHR ''b'', NL, CHR ''c'', CHR ''d'']) = 2"
  unfolding lost_newline_def after_input_def
  by (simp only: two)
     (simp add: run_defs char_of_def lineno_def first_def buffered_def count_nl_def
        upt_rec [of 0] upt_rec [of 1] upt_rec [of 2] upt_rec [of 3] upt_rec [of 4]
        numeral_3_eq_3)

lemma columno_loop_tracks:
  assumes "k \<le> txt_' m" and "txt_' m \<le> max_' m"
    and "\<forall>i\<in>{0..<txt_' m}. buf_' m i = inp ! (num_' m + i)"
  shows "columno_loop m k =
           (case prev_nl inp (num_' m + k) of
              Some j \<Rightarrow> if num_' m \<le> j then Some (txt_' m - (j - num_' m) - 1)
                        else Some (cno_' m + txt_' m)
            | None \<Rightarrow> Some (cno_' m + txt_' m))"
  using assms(1)
proof (induction k)
  case 0
  show ?case
    using prev_nl_less [of inp "num_' m"] by (auto split: option.splits)
next
  case (Suc k)
  then have k: "k < txt_' m" "k \<le> txt_' m" by simp_all
  have r: "rd m k = Some (inp ! (num_' m + k))"
    using k assms(2,3) by (simp add: rd_def)
  show ?case
    using Suc.IH [OF k(2)] r by simp
qed

lemma tracks_window: "tracks inp m \<Longrightarrow> window inp m"
  by (simp add: tracks_def window_def)

text \<open>
  Claim C8, as the code has it. Let the region before the match start hold the bytes of
  the input from offset \<^verbatim>\<open>num_\<close> on. When the last newline before the match start lies in
  the region, at offset \<open>j\<close> of the input, \<^verbatim>\<open>columno()\<close> is \<^verbatim>\<open>first()\<close> minus \<open>j\<close> minus
  1, the number of bytes between that newline and the match start. When there is no newline
  before the match start and \<^verbatim>\<open>cno_\<close> is \<^verbatim>\<open>num_\<close>, as \<^verbatim>\<open>reset\<close> makes them and \<^verbatim>\<open>update\<close>
  keeps them while it finds no newline, \<^verbatim>\<open>columno()\<close> is \<^verbatim>\<open>first()\<close>.
\<close>

theorem columno_after_newline:
  assumes "window inp m"
  shows "case prev_nl inp (first m) of
           Some j \<Rightarrow> num_' m \<le> j \<longrightarrow> columno m = Some (first m - j - 1)
         | None \<Rightarrow> cno_' m = num_' m \<longrightarrow> columno m = Some (first m)"
proof -
  have a: "txt_' m \<le> max_' m" "\<forall>i\<in>{0..<txt_' m}. buf_' m i = inp ! (num_' m + i)"
    using assms by (simp_all add: window_def)
  note l = columno_loop_tracks [OF order_refl a]
  show ?thesis
  proof (cases "prev_nl inp (first m)")
    case None
    then have "prev_nl inp (num_' m) = None"
      by (simp add: prev_nl_None first_def)
    with None l show ?thesis
      by (simp add: columno_def first_def)
  next
    case (Some j)
    with l prev_nl_less [OF Some] show ?thesis
      by (auto simp add: columno_def first_def)
  qed
qed

theorem columno_after_newline_witness:
  "columno (loaded [CHR ''a'', NL, CHR ''b'', NL, CHR ''c'', CHR ''d''] 5 1) = Some 1 \<and>
   columno (loaded ''abcd'' 3 1) = Some 3"
proof -
  have t: "window [CHR ''a'', NL, CHR ''b'', NL, CHR ''c'', CHR ''d'']
             (loaded [CHR ''a'', NL, CHR ''b'', NL, CHR ''c'', CHR ''d''] 5 1)"
     "window ''abcd'' (loaded ''abcd'' 3 1)"
    by code_simp+
  have p: "prev_nl [CHR ''a'', NL, CHR ''b'', NL, CHR ''c'', CHR ''d''] 5 = Some 3"
      "prev_nl ''abcd'' 3 = None"
    by code_simp+
  have f: "first (loaded [CHR ''a'', NL, CHR ''b'', NL, CHR ''c'', CHR ''d''] 5 1) = 5"
      "first (loaded ''abcd'' 3 1) = 3"
      "num_' (loaded [CHR ''a'', NL, CHR ''b'', NL, CHR ''c'', CHR ''d''] 5 1) = 0"
      "num_' (loaded ''abcd'' 3 1) = 0" "cno_' (loaded ''abcd'' 3 1) = 0"
    by (simp_all add: first_def loaded_def fresh_def)
  show ?thesis
    using columno_after_newline [OF t(1)] columno_after_newline [OF t(2)]
    by (simp only: f p option.case) simp
qed

text \<open>
  Claim C8 as stated fails: on the input \<^verbatim>\<open>a\nb\<close> with the match \<^verbatim>\<open>b\<close> at offset 2,
  \<^verbatim>\<open>columno()\<close> is 0, and \<^verbatim>\<open>first()\<close> minus the offset of the previous newline is 1.
\<close>

theorem columno_spec_counterexample:
  "tracks [CHR ''a'', NL, CHR ''b''] (loaded [CHR ''a'', NL, CHR ''b''] 2 1) \<and>
   columno (loaded [CHR ''a'', NL, CHR ''b''] 2 1) = Some 0 \<and>
   spec_columno [CHR ''a'', NL, CHR ''b''] (first (loaded [CHR ''a'', NL, CHR ''b''] 2 1)) = 1"
  by code_simp

text \<open>
  Two states the theorem on \<^verbatim>\<open>columno()\<close> does not speak about. When a shift has moved
  the last newline out of the region, \<^verbatim>\<open>update\<close> has left \<^verbatim>\<open>cno_\<close> at \<^verbatim>\<open>txt_ - t\<close> with
  \<open>t\<close> at the newline, not behind it: the match \<^verbatim>\<open>c\<close> at offset 3 of \<^verbatim>\<open>a\nbc\<close> has
  column 1 before \<^verbatim>\<open>grow\<close> shifts the region and column 2 after. And when \<^verbatim>\<open>input()\<close> has
  stepped over a newline that the sentinel displaced, as in the run \<open>lost_newline\<close>, the
  region does not hold the input any more: the match \<^verbatim>\<open>cd\<close> at offset 3 of \<^verbatim>\<open>ab\ncd\<close>
  has column 3.
\<close>

lemma columno_after_shift:
  "columno (loaded ([CHR ''a'', NL, CHR ''b'', CHR ''c''] @ replicate 8186 CHR ''x'') 3 1)
     = Some 1 \<and>
   map_option fst
     (grow 3 (loaded ([CHR ''a'', NL, CHR ''b'', CHR ''c''] @ replicate 8186 CHR ''x'') 3 1))
     = Some True \<and>
   map_option (first \<circ> snd)
     (grow 3 (loaded ([CHR ''a'', NL, CHR ''b'', CHR ''c''] @ replicate 8186 CHR ''x'') 3 1))
     = Some 3 \<and>
   Option.bind
     (map_option snd
        (grow 3 (loaded ([CHR ''a'', NL, CHR ''b'', CHR ''c''] @ replicate 8186 CHR ''x'') 3 1)))
     columno = Some 2"
  by (simp add: grow_def update_def memmove_def columno_def first_def loaded_def fresh_def rd_def
      sz_sub_def NL_def NUL_def Let_def upt_rec [of 0] upt_rec [of 1] upt_rec [of 2]
      numeral_3_eq_3)

lemma columno_lost_newline:
  "Option.bind lost_newline columno = Some 3 \<and>
   map_option num_' lost_newline = Some 0 \<and>
   prev_nl [CHR ''a'', CHR ''b'', NL, CHR ''c'', CHR ''d''] 3 = Some 2 \<and>
   map_option (window [CHR ''a'', CHR ''b'', NL, CHR ''c'', CHR ''d'']) lost_newline = Some False"
  unfolding lost_newline_def after_input_def
  by (simp only: two)
     (simp add: run_defs char_of_def columno_def window_def numeral_3_eq_3)

subsection \<open>Growing the buffer\<close>

lemma double_max_returns:
  "0 < mx \<Longrightarrow> \<exists>r. double_max mx n = Some r \<and> n \<le> r \<and> mx \<le> r"
proof (induction mx n rule: double_max.induct)
  case (1 mx newmax)
  show ?case
  proof (cases "mx < newmax")
    case True
    with 1 have "\<exists>r. double_max (mx * 2) newmax = Some r \<and> newmax \<le> r \<and> mx * 2 \<le> r"
      by simp
    then show ?thesis
      using True 1(2) by (subst double_max.simps) auto
  next
    case False
    then show ?thesis
      by (subst double_max.simps) simp
  qed
qed




lemma update_frame:
  "update m = Some m1 \<Longrightarrow> end_' m1 = end_' m \<and> max_' m1 = max_' m \<and> txt_' m1 = txt_' m"
  by (auto simp add: update_def split: bind_splits)

text \<open>
  Where \<^verbatim>\<open>grow\<close> does make room: when it returns on a matcher with
  \<open>txt \<le> end \<le> max\<close>, at least \<open>need\<close> bytes are free behind \<^verbatim>\<open>end_\<close>, provided
  the room was there already, or the gap before the match start is at least \<open>need\<close>, or
  the capacity is below \<open>end - gap + need\<close>.
\<close>

lemma grow_makes_room:
  assumes "txt_' m \<le> end_' m" and "end_' m \<le> max_' m" and "grow need m = Some (r, m')"
    and "need \<le> max_' m - end_' m \<or> need \<le> txt_' m \<or> max_' m < end_' m - txt_' m + need"
  shows "need \<le> max_' m' - end_' m'"
proof (cases "need \<le> sz_sub (max_' m) (end_' m)")
  case True
  with assms(2,3) show ?thesis by (simp add: grow_def sz_sub_def)
next
  case far: False
  show ?thesis
  proof (cases "need \<le> txt_' m")
    case True
    show ?thesis
    proof (cases "update m")
      case None
      with assms(3) far True show ?thesis by (simp add: grow_def Let_def)
    next
      case (Some m1)
      note f = update_frame [OF Some]
      from assms(1-3) far True Some f show ?thesis
        by (auto simp add: grow_def Let_def memmove_def sz_sub_def split: if_splits)
    qed
  next
    case False
    with assms(2,4) far have big: "max_' m < end_' m - txt_' m + need"
      by (simp add: sz_sub_def)
    show ?thesis
    proof (cases "double_max (max_' m) (sz_sub (end_' m) (txt_' m) + need)")
      case None
      with assms(3) far False show ?thesis by (simp add: grow_def Let_def)
    next
      case mx: (Some mx)
      have "0 < max_' m"
        using mx big assms(1)
        by (cases "max_' m = 0") (simp_all add: double_max.simps [of 0] sz_sub_def)
      from double_max_returns [OF this, of "sz_sub (end_' m) (txt_' m) + need"] mx
      have le: "sz_sub (end_' m) (txt_' m) + need \<le> mx" by simp
      with big assms(1) have lt: "max_' m < mx" by (simp add: sz_sub_def)
      show ?thesis
      proof (cases "update m")
        case None
        with assms(3) far False mx lt show ?thesis by (simp add: grow_def Let_def)
      next
        case (Some m1)
        note f = update_frame [OF Some]
        from assms(1-3) far False Some f mx le lt show ?thesis
          by (auto simp add: grow_def Let_def sz_sub_def split: if_splits)
      qed
    qed
  qed
qed

text \<open>
  Claim C1 fails on the code. The matcher below has capacity 8192, has buffered 6000 bytes
  and holds a match of 10 bytes at offset 3000, so 2192 bytes are free. \<^verbatim>\<open>grow()\<close>, with
  the default \<open>need = BLOCK = 4096\<close>, finds the gap of 3000 bytes too small for the first
  branch, computes \<open>newmax = 6000 - 3000 + 4096 = 7096\<close>, which the capacity already
  exceeds, so the loop does not double it and the second branch does nothing either: the call
  returns true and leaves the matcher as it is, with 2192 free bytes where 4096 were asked
  for.
\<close>

theorem grow_missed_case:
  "grow BLOCK (loaded (replicate 6000 CHR ''x'') 3000 10)
     = Some (True, loaded (replicate 6000 CHR ''x'') 3000 10) \<and>
   max_' (loaded (replicate 6000 CHR ''x'') 3000 10)
     - end_' (loaded (replicate 6000 CHR ''x'') 3000 10) = 2192 \<and>
   BLOCK = 4096"
  by (simp add: grow_def Let_def sz_sub_def loaded_def fresh_def BLOCK_def
      double_max.simps [of 8192])

subsection \<open>Putting a character back\<close>
















end
